theory Spec2Isabelle
  imports Complex_Main "HOL-Library.Sublist"
begin

section \<open>Replay extraction (modules/replay\_handler.py)\<close>

text \<open>
  The module \<^verbatim>\<open>replay_handler.py\<close> defines the class \<^verbatim>\<open>ReplayHandler\<close> with the
  methods \<^verbatim>\<open>extract_replays\<close>, \<^verbatim>\<open>_get_most_recent_replay_id\<close>, \<^verbatim>\<open>_get_replay_info\<close>
  and \<^verbatim>\<open>_get_replay_json_from_id\<close>. Each method is embedded as a HOL function that
  returns the events it causes (collaborator calls and log records, in order) together
  with either the exception it raises (\<open>Inl\<close>) or the value it returns (\<open>Inr\<close>).
\<close>

subsection \<open>Exceptions, log records, events\<close>

text \<open>
  The exception classes the module distinguishes. All of them derive from Python's
  \<^verbatim>\<open>Exception\<close>, so an \<^verbatim>\<open>except Exception\<close> clause catches every value of this type.
  The argument of \<open>KeyError\<close> is the missing key; the other arguments are messages.
\<close>

datatype exn =
    KeyError string
  | TypeError string
  | RequestException string
  | LadderNotFoundException string
  | OtherException string

text \<open>\<^verbatim>\<open>str(e)\<close>: Python prints a \<^verbatim>\<open>KeyError\<close> as the quoted key.\<close>

fun str_exn :: "exn \<Rightarrow> string" where
  "str_exn (KeyError k) = [CHR 0x27] @ k @ [CHR 0x27]"
| "str_exn (TypeError m) = m"
| "str_exn (RequestException m) = m"
| "str_exn (LadderNotFoundException m) = m"
| "str_exn (OtherException m) = m"

datatype level = INFO | WARNING | ERROR

text \<open>
  What a call does besides returning: a record written to \<^verbatim>\<open>logger\<close>, a call of
  \<^verbatim>\<open>ladder_retriever.get_users\<close> (with the format), of \<^verbatim>\<open>get_soup_from_url\<close> or of
  \<^verbatim>\<open>get_response_from_url\<close> (with the URL).
\<close>

datatype event =
    Log level string
  | GetUsers string
  | GetSoup string
  | GetResponse string

type_synonym 'a result = "event list \<times> (exn + 'a)"

text \<open>Sequencing of two steps that may raise: the second runs only if the first returns.\<close>

definition and_then :: "exn + 'a \<Rightarrow> ('a \<Rightarrow> exn + 'b) \<Rightarrow> exn + 'b" where
  "and_then r f = (case r of Inl ex \<Rightarrow> Inl ex | Inr v \<Rightarrow> f v)"

subsection \<open>Data\<close>

text \<open>
  Modelled from the spec: the class \<^verbatim>\<open>LadderUserInfo\<close> (data/ladder\_user\_info.py) is
  not among the sources; the spec gives it the fields \<open>username\<close> (string) and
  \<open>rating\<close> (numeric). The handler reads both and never computes with the rating.
\<close>

record ladder_user_info =
  username :: string
  rating :: real

text \<open>A parsed JSON value, as \<^verbatim>\<open>Response.json()\<close> returns it. A dict keeps its items as pairs.\<close>

datatype json =
    JNull
  | JBool bool
  | JNum real
  | JStr string
  | JArr "json list"
  | JObj "(string \<times> json) list"

text \<open>
  \<^verbatim>\<open>replay_json[key]\<close> with a string key: a dict raises \<^verbatim>\<open>KeyError(key)\<close> when the key is
  absent; every other JSON value (list, string, number, bool, None) raises
  \<^verbatim>\<open>TypeError\<close>.
\<close>

fun getitem :: "json \<Rightarrow> string \<Rightarrow> exn + json" where
  "getitem (JObj kvs) k = (case map_of kvs k of None \<Rightarrow> Inl (KeyError k) | Some v \<Rightarrow> Inr v)"
| "getitem _ k = Inl (TypeError ''value cannot be indexed with a str key'')"

text \<open>
  Modelled from the spec: the class \<^verbatim>\<open>ReplayInfo\<close> (data/replay\_info.py) is not among the
  sources; the spec describes a plain data holder whose constructor takes, in this
  order, id, username, rating, format, log and uploadtime. The four replay fields hold
  whatever JSON value the payload has under the key.
\<close>

record replay_info =
  info_id :: json
  info_username :: string
  info_rating :: real
  info_format :: json
  info_log :: json
  info_uploadtime :: json

text \<open>
  The parsed page: a tag with its name, its attribute dict and its child tags. The
  \<^verbatim>\<open>BeautifulSoup\<close> object is itself the root tag. Text nodes are left out: \<^verbatim>\<open>find_all\<close>
  with a function argument offers tags only.
\<close>

datatype tag = Tag (tag_name: string) (attrs: "(string \<times> string) list") (contents: "tag list")

text \<open>\<^verbatim>\<open>tag.get(key)\<close>: the attribute's value, or \<^verbatim>\<open>None\<close>.\<close>

definition tag_get :: "tag \<Rightarrow> string \<Rightarrow> string option" where
  "tag_get t k = map_of (attrs t) k"

text \<open>The tags below a tag in document order, which is the order \<^verbatim>\<open>find_all\<close> visits them in.\<close>

fun descendants :: "tag \<Rightarrow> tag list" where
  "descendants (Tag n a cs) = concat (map (\<lambda>c. c # descendants c) cs)"

text \<open>
  What \<^verbatim>\<open>get_response_from_url\<close> returns when it does not raise: \<^verbatim>\<open>None\<close>, or a response
  object with its truth value (what \<^verbatim>\<open>not replay_data_res\<close> tests) and the outcome of
  its \<^verbatim>\<open>.json()\<close> method.
\<close>

datatype response = Response (truthy: bool) (json_method: "exn + json")

subsection \<open>Collaborators and constants\<close>

text \<open>
  The constants of \<^verbatim>\<open>utils.constants\<close> and the two functions of \<^verbatim>\<open>utils.request_utils\<close>
  are imported by the module and not among the sources; they are parameters here. The
  two fetch functions either raise or return.
\<close>

record env =
  MAX_USERS :: int
  REPLAY_BASE_URL :: string
  get_soup_from_url :: "string \<Rightarrow> exn + tag"
  get_response_from_url :: "string \<Rightarrow> exn + response option"

text \<open>
  The fields \<^verbatim>\<open>__init__\<close> stores. The ladder retriever is its method \<^verbatim>\<open>get_users\<close>: a list
  of users, or \<^verbatim>\<open>None\<close>.
\<close>

record replay_handler =
  format_id :: string
  ladder_retriever :: "string \<Rightarrow> ladder_user_info list option"

definition REPLAY_SEARCH_BASE_URL :: string where
  "REPLAY_SEARCH_BASE_URL = ''https://replay.pokemonshowdown.com/search/?output=html&page=1&user=''"

subsection \<open>\_get\_most\_recent\_replay\_id\<close>

text \<open>
  The function given to \<^verbatim>\<open>find_all\<close>:
  \<^verbatim>\<open>predicate.name == "a" and self.format_id in predicate.get("href")\<close>.
  On an anchor without \<^verbatim>\<open>href\<close> the operator \<^verbatim>\<open>in\<close> is applied to \<^verbatim>\<open>None\<close> and raises.
\<close>

definition link_predicate :: "string \<Rightarrow> tag \<Rightarrow> exn + bool" where
  "link_predicate fmt t =
     (if tag_name t = ''a'' then
        (case tag_get t ''href'' of
           None \<Rightarrow> Inl (TypeError ''argument of type NoneType is not iterable'')
         | Some h \<Rightarrow> Inr (sublist fmt h))
      else Inr False)"

text \<open>\<^verbatim>\<open>find_all\<close> over the tags in document order; the first call that raises ends it.\<close>

fun find_all :: "(tag \<Rightarrow> exn + bool) \<Rightarrow> tag list \<Rightarrow> exn + tag list" where
  "find_all p [] = Inr []"
| "find_all p (t # ts) =
     (case p t of
        Inl ex \<Rightarrow> Inl ex
      | Inr b \<Rightarrow>
          (case find_all p ts of
             Inl ex \<Rightarrow> Inl ex
           | Inr r \<Rightarrow> Inr (if b then t # r else r)))"

text \<open>\<^verbatim>\<open>replay.get("href")[1:]\<close>: slicing \<^verbatim>\<open>None\<close> raises, slicing a string drops one character.\<close>

definition href_tail :: "tag \<Rightarrow> exn + string" where
  "href_tail t =
     (case tag_get t ''href'' of
        None \<Rightarrow> Inl (TypeError ''NoneType object is not subscriptable'')
      | Some h \<Rightarrow> Inr (drop 1 h))"

text \<open>The list comprehension: one element per tag, in order, ended by the first raise.\<close>

fun comprehension :: "('a \<Rightarrow> exn + 'b) \<Rightarrow> 'a list \<Rightarrow> exn + 'b list" where
  "comprehension f [] = Inr []"
| "comprehension f (x # xs) =
     (case f x of
        Inl ex \<Rightarrow> Inl ex
      | Inr y \<Rightarrow>
          (case comprehension f xs of
             Inl ex \<Rightarrow> Inl ex
           | Inr ys \<Rightarrow> Inr (y # ys)))"

text \<open>The body of the \<^verbatim>\<open>try\<close> block, after the page has been fetched.\<close>

definition first_replay_id :: "string \<Rightarrow> tag \<Rightarrow> exn + string" where
  "first_replay_id fmt soup =
     and_then (find_all (link_predicate fmt) (descendants soup)) (\<lambda>found.
     and_then (comprehension href_tail found) (\<lambda>replay_id.
     Inr (case replay_id of [] \<Rightarrow> '''' | r # _ \<Rightarrow> r)))"

definition get_most_recent_replay_id :: "replay_handler \<Rightarrow> env \<Rightarrow> string \<Rightarrow> string result" where
  "get_most_recent_replay_id h e name =
     (let replay_search_url = REPLAY_SEARCH_BASE_URL @ name in
      case and_then (get_soup_from_url e replay_search_url) (first_replay_id (format_id h)) of
        Inr r \<Rightarrow> ([GetSoup replay_search_url], Inr r)
      | Inl ex \<Rightarrow>
          ([GetSoup replay_search_url,
            Log WARNING (''Unable to reach server for replays: '' @ str_exn ex)],
           Inr ''''))"

subsection \<open>\_get\_replay\_json\_from\_id\<close>

text \<open>
  The handler \<^verbatim>\<open>except requests.exceptions.RequestException as e: raise e\<close> raises what it
  caught, and any other exception passes through uncaught.
\<close>

definition get_replay_json_from_id :: "env \<Rightarrow> string \<Rightarrow> json result" where
  "get_replay_json_from_id e replay_id =
     (let replay_data_get_url = REPLAY_BASE_URL e @ replay_id @ ''.json'' in
      ([GetResponse replay_data_get_url],
       case and_then (get_response_from_url e replay_data_get_url) (\<lambda>replay_data_res.
              case replay_data_res of
                None \<Rightarrow> Inr (JObj [])
              | Some res \<Rightarrow> if \<not> truthy res then Inr (JObj []) else json_method res) of
         Inr v \<Rightarrow> Inr v
       | Inl (RequestException m) \<Rightarrow> Inl (RequestException m)
       | Inl ex \<Rightarrow> Inl ex))"

subsection \<open>\_get\_replay\_info\<close>

text \<open>
  The constructor call: Python evaluates the arguments from left to right, so the keys
  are read in the order id, format, log, uploadtime and the first absent one raises.
\<close>

definition make_replay_info :: "ladder_user_info \<Rightarrow> json \<Rightarrow> exn + replay_info" where
  "make_replay_info user_info replay_json =
     and_then (getitem replay_json ''id'') (\<lambda>i.
     and_then (getitem replay_json ''format'') (\<lambda>f.
     and_then (getitem replay_json ''log'') (\<lambda>l.
     and_then (getitem replay_json ''uploadtime'') (\<lambda>u.
     Inr \<lparr>info_id = i, info_username = username user_info, info_rating = rating user_info,
          info_format = f, info_log = l, info_uploadtime = u\<rparr>))))"

text \<open>
  The \<^verbatim>\<open>KeyError\<close> handler logs and raises again. The \<^verbatim>\<open>Exception\<close> handler only logs:
  the method then ends without a \<^verbatim>\<open>return\<close>, so the call returns \<^verbatim>\<open>None\<close>.
\<close>

definition get_replay_info ::
  "replay_handler \<Rightarrow> env \<Rightarrow> ladder_user_info \<Rightarrow> string \<Rightarrow> replay_info option result" where
  "get_replay_info h e user_info replay_id =
     (case get_replay_json_from_id e replay_id of
        (evs, r) \<Rightarrow>
          (case and_then r (make_replay_info user_info) of
             Inr replay_info \<Rightarrow> (evs, Inr (Some replay_info))
           | Inl (KeyError k) \<Rightarrow> (evs @ [Log ERROR ''Replay key not found''], Inl (KeyError k))
           | Inl ex \<Rightarrow>
               (evs @ [Log ERROR (''Unable to retrieve replay: '' @ str_exn ex)], Inr None)))"

subsection \<open>extract\_replays\<close>

definition not_found_msg :: "replay_handler \<Rightarrow> ladder_user_info \<Rightarrow> string" where
  "not_found_msg h user_info =
     ''No '' @ [CHR 0x27] @ format_id h @ [CHR 0x27] @ '' replays found for ''
       @ username user_info @ '', continuing to next''"

definition found_msg :: "replay_handler \<Rightarrow> ladder_user_info \<Rightarrow> string" where
  "found_msg h user_info =
     ''Found '' @ [CHR 0x27] @ format_id h @ [CHR 0x27] @ '' replay for '' @ username user_info"

text \<open>
  The \<^verbatim>\<open>for\<close> loop over the ranking, with the list built so far and \<^verbatim>\<open>teams_found\<close>. An
  exception of a call ends the loop and is the loop's outcome; \<^verbatim>\<open>break\<close> returns the
  list. The events of the later iterations follow those of this one.
\<close>

fun extract_loop ::
  "replay_handler \<Rightarrow> env \<Rightarrow> int \<Rightarrow> ladder_user_info list \<Rightarrow> replay_info option list \<Rightarrow> int
     \<Rightarrow> replay_info option list result" where
  "extract_loop h e num_users_to_pull [] replay_info_list teams_found =
     ([], Inr replay_info_list)"
| "extract_loop h e num_users_to_pull (user_info # rest) replay_info_list teams_found =
     (case get_most_recent_replay_id h e (username user_info) of
        (evs1, Inl ex) \<Rightarrow> (evs1, Inl ex)
      | (evs1, Inr most_recent_replay_id) \<Rightarrow>
          if most_recent_replay_id = '''' then
            (case extract_loop h e num_users_to_pull rest replay_info_list teams_found of
               (evs, r) \<Rightarrow> (evs1 @ [Log INFO (not_found_msg h user_info)] @ evs, r))
          else
            (case get_replay_info h e user_info most_recent_replay_id of
               (evs2, Inl ex) \<Rightarrow> (evs1 @ [Log INFO (found_msg h user_info)] @ evs2, Inl ex)
             | (evs2, Inr replay_info) \<Rightarrow>
                 if teams_found + 1 = num_users_to_pull then
                   (evs1 @ [Log INFO (found_msg h user_info)] @ evs2,
                    Inr (replay_info_list @ [replay_info]))
                 else
                   (case extract_loop h e num_users_to_pull rest
                           (replay_info_list @ [replay_info]) (teams_found + 1) of
                      (evs, r) \<Rightarrow>
                        (evs1 @ [Log INFO (found_msg h user_info)] @ evs2 @ evs, r))))"

text \<open>\<^verbatim>\<open>not top_ladder_users\<close>: \<^verbatim>\<open>None\<close> and the empty list are false.\<close>

fun falsy_users :: "ladder_user_info list option \<Rightarrow> bool" where
  "falsy_users None = True"
| "falsy_users (Some us) = (us = [])"

definition ladder_not_found :: "replay_handler \<Rightarrow> exn" where
  "ladder_not_found h =
     LadderNotFoundException (''Could not retrieve ladder rankings for '' @ format_id h)"

definition extract_replays :: "replay_handler \<Rightarrow> env \<Rightarrow> int \<Rightarrow> replay_info option list result" where
  "extract_replays h e requested =
     (let num_users_to_pull = min requested (MAX_USERS e);
          top_ladder_users = ladder_retriever h (format_id h) in
      if falsy_users top_ladder_users then
        ([GetUsers (format_id h), Log WARNING ''Could not retrieve ladder rankings, aborting...''],
         Inl (ladder_not_found h))
      else
        (case extract_loop h e num_users_to_pull (the top_ladder_users) [] 0 of
           (evs, r) \<Rightarrow> (GetUsers (format_id h) # evs, r)))"

text \<open>The call without an argument: the default \<^verbatim>\<open>num_users_to_pull = MAX_USERS\<close>.\<close>

definition extract_replays_default :: "replay_handler \<Rightarrow> env \<Rightarrow> replay_info option list result" where
  "extract_replays_default h e = extract_replays h e (MAX_USERS e)"

subsection \<open>Notions used to state the properties\<close>

text \<open>The search URL built for a ranked user, and the URL of a replay's JSON document.\<close>

definition search_url :: "ladder_user_info \<Rightarrow> string" where
  "search_url u = REPLAY_SEARCH_BASE_URL @ username u"

definition json_url :: "env \<Rightarrow> string \<Rightarrow> string" where
  "json_url e replay_id = REPLAY_BASE_URL e @ replay_id @ ''.json''"

text \<open>The identifier the lookup returns for a user, and whether it is a non-empty one.\<close>

definition lookup_id :: "replay_handler \<Rightarrow> env \<Rightarrow> ladder_user_info \<Rightarrow> string" where
  "lookup_id h e u =
     (case snd (get_most_recent_replay_id h e (username u)) of Inr r \<Rightarrow> r | Inl ex \<Rightarrow> '''')"

definition has_replay :: "replay_handler \<Rightarrow> env \<Rightarrow> ladder_user_info \<Rightarrow> bool" where
  "has_replay h e u = (lookup_id h e u \<noteq> '''')"

text \<open>The collaborator calls among the events, without the log records.\<close>

fun is_fetch :: "event \<Rightarrow> bool" where
  "is_fetch (Log l m) = False"
| "is_fetch ev = True"

definition fetches :: "event list \<Rightarrow> event list" where
  "fetches evs = filter is_fetch evs"

text \<open>
  The calls one iteration of the loop makes for a user: the search page, and the
  replay's JSON document when the search gave an identifier.
\<close>

definition user_fetches :: "replay_handler \<Rightarrow> env \<Rightarrow> ladder_user_info \<Rightarrow> event list" where
  "user_fetches h e u =
     GetSoup (search_url u) #
       (if has_replay h e u then [GetResponse (json_url e (lookup_id h e u))] else [])"

text \<open>
  The entry the loop appends for a user with an identifier: what \<open>get_replay_info\<close>
  returns, and a record carries the user's name and rating.
\<close>

definition entry_of ::
  "replay_handler \<Rightarrow> env \<Rightarrow> ladder_user_info \<Rightarrow> replay_info option \<Rightarrow> bool" where
  "entry_of h e u r =
     (snd (get_replay_info h e u (lookup_id h e u)) = Inr r \<and>
      (case r of
         None \<Rightarrow> True
       | Some i \<Rightarrow> info_username i = username u \<and> info_rating i = rating u))"

text \<open>
  The spec's selection for the lookup: the anchors of the page, in document order, whose
  \<open>href\<close> contains the format identifier; and the identifier a link stands for.
\<close>

definition matching_links :: "string \<Rightarrow> tag \<Rightarrow> tag list" where
  "matching_links fmt soup =
     filter (\<lambda>t. tag_name t = ''a'' \<and>
                 (case tag_get t ''href'' of None \<Rightarrow> False | Some href \<Rightarrow> sublist fmt href))
       (descendants soup)"

definition link_id :: "tag \<Rightarrow> string" where
  "link_id t = (case tag_get t ''href'' of None \<Rightarrow> '''' | Some href \<Rightarrow> drop 1 href)"

definition anchors_have_href :: "tag \<Rightarrow> bool" where
  "anchors_have_href soup =
     list_all (\<lambda>t. tag_name t \<noteq> ''a'' \<or> tag_get t ''href'' \<noteq> None) (descendants soup)"

text \<open>The keys the constructor call reads, in the order it reads them.\<close>

definition required_keys :: "string list" where
  "required_keys = [''id'', ''format'', ''log'', ''uploadtime'']"

text \<open>\<^verbatim>\<open>not replay_data_res\<close> for what \<^verbatim>\<open>get_response_from_url\<close> returned.\<close>

fun falsy_response :: "response option \<Rightarrow> bool" where
  "falsy_response None = True"
| "falsy_response (Some res) = (\<not> truthy res)"

subsection \<open>A ladder of three users, for concrete runs\<close>

definition link :: "string \<Rightarrow> tag" where
  "link href =
     Tag ''li'' [] [Tag ''a'' [(''href'', href), (''data-target'', ''push'')] [Tag ''small'' [] []]]"

definition page :: "tag list \<Rightarrow> tag" where
  "page items = Tag ''[document]'' [] [Tag ''ul'' [(''class'', ''linklist'')] items]"

definition payload :: "string \<Rightarrow> json" where
  "payload rid =
     JObj [(''id'', JStr rid), (''format'', JStr ''gen8ou''), (''log'', JStr ''|start''),
           (''uploadtime'', JNum 1000)]"

definition ok_response :: "json \<Rightarrow> exn + response option" where
  "ok_response j = Inr (Some (Response True (Inr j)))"

text \<open>Collaborators given by tables from URLs to outcomes; a URL outside the table is unreachable.\<close>

definition table_env ::
  "int \<Rightarrow> (string \<times> (exn + tag)) list \<Rightarrow> (string \<times> (exn + response option)) list \<Rightarrow> env" where
  "table_env m pages responses =
     \<lparr>MAX_USERS = m, REPLAY_BASE_URL = ''https://replay.pokemonshowdown.com/'',
      get_soup_from_url =
        (\<lambda>url. case map_of pages url of
                  Some r \<Rightarrow> r
                | None \<Rightarrow> Inl (RequestException ''no route to host'')),
      get_response_from_url =
        (\<lambda>url. case map_of responses url of
                  Some r \<Rightarrow> r
                | None \<Rightarrow> Inl (RequestException ''no route to host''))\<rparr>"

definition alice :: ladder_user_info where
  "alice = \<lparr>username = ''alice'', rating = 1500\<rparr>"

definition bob :: ladder_user_info where
  "bob = \<lparr>username = ''bob'', rating = 1400\<rparr>"

definition carol :: ladder_user_info where
  "carol = \<lparr>username = ''carol'', rating = 1300\<rparr>"

definition demo_handler :: replay_handler where
  "demo_handler =
     \<lparr>format_id = ''gen8ou'',
      ladder_retriever = (\<lambda>f. if f = ''gen8ou'' then Some [alice, bob, carol] else None)\<rparr>"

text \<open>Alice has two replays of the format, Bob only one of another format, Carol one.\<close>

definition demo_pages :: "(string \<times> (exn + tag)) list" where
  "demo_pages =
     [(REPLAY_SEARCH_BASE_URL @ ''alice'', Inr (page [link ''/gen8ou-3'', link ''/gen8ou-2''])),
      (REPLAY_SEARCH_BASE_URL @ ''bob'', Inr (page [link ''/gen7ou-9''])),
      (REPLAY_SEARCH_BASE_URL @ ''carol'', Inr (page [link ''/gen8ou-5'']))]"

text \<open>The environment of the runs; the outcome of fetching Alice's replay varies.\<close>

definition demo_env :: "exn + response option \<Rightarrow> env" where
  "demo_env r3 =
     table_env 10 demo_pages
       [(''https://replay.pokemonshowdown.com/gen8ou-3.json'', r3),
        (''https://replay.pokemonshowdown.com/gen8ou-5.json'', ok_response (payload ''gen8ou-5''))]"

text \<open>A handler whose ladder is unavailable, and one for pages with short links.\<close>

definition empty_handler :: "ladder_user_info list option \<Rightarrow> replay_handler" where
  "empty_handler r = \<lparr>format_id = ''gen8ou'', ladder_retriever = (\<lambda>f. r)\<rparr>"

definition r_handler :: replay_handler where
  "r_handler = \<lparr>format_id = ''r'', ladder_retriever = (\<lambda>f. Some [alice])\<rparr>"

definition r_env :: "tag \<Rightarrow> env" where
  "r_env soup = table_env 10 [(REPLAY_SEARCH_BASE_URL @ ''alice'', Inr soup)] []"

section \<open>Properties\<close>

subsection \<open>What the two per-user calls return and fetch\<close>

lemma fetches_append: "fetches (xs @ ys) = fetches xs @ fetches ys"
  by (simp add: fetches_def)

lemma fetches_Nil: "fetches [] = []"
  by (simp add: fetches_def)

lemma fetches_Cons: "fetches (ev # evs) = (if is_fetch ev then ev # fetches evs else fetches evs)"
  by (simp add: fetches_def)

lemmas fetches_simps = fetches_append fetches_Nil fetches_Cons

lemma lookup_returns:
  "\<exists>evs. get_most_recent_replay_id h e (username u) = (evs, Inr (lookup_id h e u)) \<and>
         fetches evs = [GetSoup (search_url u)]"
  by (auto simp: get_most_recent_replay_id_def lookup_id_def search_url_def fetches_def Let_def
      split: sum.splits)

lemma info_fetches: "fetches (fst (get_replay_info h e u rid)) = [GetResponse (json_url e rid)]"
  by (auto simp: get_replay_info_def get_replay_json_from_id_def json_url_def fetches_def Let_def
      split: sum.splits exn.splits)

lemma info_names:
  "snd (get_replay_info h e u rid) = Inr (Some i) \<Longrightarrow>
     info_username i = username u \<and> info_rating i = rating u"
  by (auto simp: get_replay_info_def make_replay_info_def and_then_def
      split: sum.splits exn.splits prod.splits)

lemma info_raises_KeyError:
  "snd (get_replay_info h e u rid) = Inl ex \<Longrightarrow> \<exists>k. ex = KeyError k"
  by (auto simp: get_replay_info_def split: sum.splits exn.splits prod.splits)

lemma entry_ofI:
  assumes "get_replay_info h e u (lookup_id h e u) = (evs, Inr r)"
  shows "entry_of h e u r"
proof (cases r)
  case None
  with assms show ?thesis by (simp add: entry_of_def)
next
  case (Some i)
  with assms have "snd (get_replay_info h e u (lookup_id h e u)) = Inr (Some i)" by simp
  from info_names[OF this] assms Some show ?thesis by (simp add: entry_of_def)
qed

subsection \<open>The loop\<close>

lemma loop_shape:
  "extract_loop h e n us acc found = (evs, Inr rs) \<Longrightarrow>
   \<exists>j new. j \<le> length us \<and> fetches evs = concat (map (user_fetches h e) (take j us)) \<and>
      rs = acc @ new \<and>
      list_all2 (entry_of h e) (filter (has_replay h e) (take j us)) new \<and>
      (j < length us \<longrightarrow> 0 < j \<and> has_replay h e (us ! (j - 1)) \<and> found + int (length new) = n) \<and>
      (\<forall>i. Suc i < j \<and> has_replay h e (us ! i) \<longrightarrow>
           found + int (length (filter (has_replay h e) (take (Suc i) us))) \<noteq> n)"
proof (induction us arbitrary: acc found evs rs)
  case Nil
  then show ?case by (auto simp: fetches_Nil)
next
  case (Cons u us)
  obtain evs1 where l: "get_most_recent_replay_id h e (username u) = (evs1, Inr (lookup_id h e u))"
    and s1: "fetches evs1 = [GetSoup (search_url u)]"
    using lookup_returns by blast
  show ?case
  proof (cases "lookup_id h e u = ''''")
    case True
    then have nh: "\<not> has_replay h e u" by (simp add: has_replay_def)
    then have uf: "user_fetches h e u = [GetSoup (search_url u)]" by (simp add: user_fetches_def)
    obtain evs' r' where rec: "extract_loop h e n us acc found = (evs', r')" by force
    with Cons.prems l True have "r' = Inr rs"
      and ev: "evs = evs1 @ [Log INFO (not_found_msg h u)] @ evs'"
      by auto
    with rec Cons.IH obtain j new where j: "j \<le> length us"
      "fetches evs' = concat (map (user_fetches h e) (take j us))"
      "rs = acc @ new" "list_all2 (entry_of h e) (filter (has_replay h e) (take j us)) new"
      "j < length us \<longrightarrow> 0 < j \<and> has_replay h e (us ! (j - 1)) \<and> found + int (length new) = n"
      and before: "\<forall>i. Suc i < j \<and> has_replay h e (us ! i) \<longrightarrow>
           found + int (length (filter (has_replay h e) (take (Suc i) us))) \<noteq> n" by blast
    have stop: "Suc j < length (u # us) \<longrightarrow>
        0 < Suc j \<and> has_replay h e ((u # us) ! (Suc j - 1)) \<and> found + int (length new) = n"
      using j(5) by (cases j) auto
    have earlier: "\<forall>i. Suc i < Suc j \<and> has_replay h e ((u # us) ! i) \<longrightarrow>
        found + int (length (filter (has_replay h e) (take (Suc i) (u # us)))) \<noteq> n"
    proof (intro allI impI)
      fix i
      assume a: "Suc i < Suc j \<and> has_replay h e ((u # us) ! i)"
      with nh obtain i' where i': "i = Suc i'" by (cases i) auto
      with a before nh
      show "found + int (length (filter (has_replay h e) (take (Suc i) (u # us)))) \<noteq> n"
        by simp
    qed
    have shape: "Suc j \<le> length (u # us) \<and>
        fetches evs = concat (map (user_fetches h e) (take (Suc j) (u # us))) \<and> rs = acc @ new \<and>
        list_all2 (entry_of h e) (filter (has_replay h e) (take (Suc j) (u # us))) new"
      using j ev s1 nh uf by (simp add: fetches_simps)
    from shape stop earlier show ?thesis by blast
  next
    case False
    then have hs: "has_replay h e u" by (simp add: has_replay_def)
    then have uf: "user_fetches h e u =
        [GetSoup (search_url u), GetResponse (json_url e (lookup_id h e u))]"
      by (simp add: user_fetches_def)
    obtain evs2 r2 where g: "get_replay_info h e u (lookup_id h e u) = (evs2, r2)" by force
    have s2: "fetches evs2 = [GetResponse (json_url e (lookup_id h e u))]"
      using info_fetches[of h e u "lookup_id h e u"] g by simp
    from Cons.prems l False g obtain r where r2: "r2 = Inr r"
      by (cases r2) auto
    have ent: "entry_of h e u r" using g r2 entry_ofI by blast
    show ?thesis
    proof (cases "found + 1 = n")
      case True
      with Cons.prems l False g r2 have "rs = acc @ [r]"
        and ev: "evs = evs1 @ [Log INFO (found_msg h u)] @ evs2" by auto
      then show ?thesis
        apply (intro exI[of _ "Suc 0"] exI[of _ "[r]"])
        using s1 s2 hs ent True uf by (auto simp: fetches_simps)
    next
      case ne: False
      obtain evs' r' where rec: "extract_loop h e n us (acc @ [r]) (found + 1) = (evs', r')"
        by force
      with Cons.prems l False g r2 ne have "r' = Inr rs"
        and ev: "evs = evs1 @ [Log INFO (found_msg h u)] @ evs2 @ evs'" by auto
      with rec Cons.IH obtain j new where j: "j \<le> length us"
        "fetches evs' = concat (map (user_fetches h e) (take j us))"
        "rs = (acc @ [r]) @ new"
        "list_all2 (entry_of h e) (filter (has_replay h e) (take j us)) new"
        "j < length us \<longrightarrow>
           0 < j \<and> has_replay h e (us ! (j - 1)) \<and> found + 1 + int (length new) = n"
        and before: "\<forall>i. Suc i < j \<and> has_replay h e (us ! i) \<longrightarrow>
           found + 1 + int (length (filter (has_replay h e) (take (Suc i) us))) \<noteq> n" by blast
      have stop: "Suc j < length (u # us) \<longrightarrow>
          0 < Suc j \<and> has_replay h e ((u # us) ! (Suc j - 1)) \<and>
          found + int (length (r # new)) = n"
        using j(5) by (cases j) auto
      have earlier: "\<forall>i. Suc i < Suc j \<and> has_replay h e ((u # us) ! i) \<longrightarrow>
          found + int (length (filter (has_replay h e) (take (Suc i) (u # us)))) \<noteq> n"
      proof (intro allI impI)
        fix i
        assume a: "Suc i < Suc j \<and> has_replay h e ((u # us) ! i)"
        show "found + int (length (filter (has_replay h e) (take (Suc i) (u # us)))) \<noteq> n"
        proof (cases i)
          case 0
          with hs ne show ?thesis by simp
        next
          case (Suc i')
          with a have "Suc i' < j \<and> has_replay h e (us ! i')" by simp
          with before
          have "found + 1 + int (length (filter (has_replay h e) (take (Suc i') us))) \<noteq> n"
            by blast
          with Suc hs show ?thesis by simp
        qed
      qed
      have shape: "Suc j \<le> length (u # us) \<and>
          fetches evs = concat (map (user_fetches h e) (take (Suc j) (u # us))) \<and>
          rs = acc @ (r # new) \<and>
          list_all2 (entry_of h e) (filter (has_replay h e) (take (Suc j) (u # us))) (r # new)"
        using j ev s1 s2 hs ent uf by (simp add: fetches_simps)
      from shape stop earlier show ?thesis by blast
    qed
  qed
qed

lemma loop_length:
  "extract_loop h e n us acc found = (evs, Inr rs) \<Longrightarrow> found < n \<Longrightarrow>
     int (length rs) \<le> int (length acc) + (n - found)"
proof (induction us arbitrary: acc found evs rs)
  case Nil
  then show ?case by auto
next
  case (Cons u us)
  obtain evs1 where l: "get_most_recent_replay_id h e (username u) = (evs1, Inr (lookup_id h e u))"
    using lookup_returns by blast
  show ?case
  proof (cases "lookup_id h e u = ''''")
    case True
    obtain evs' r' where rec: "extract_loop h e n us acc found = (evs', r')" by force
    with Cons.prems l True have "r' = Inr rs" by auto
    with rec Cons.IH Cons.prems(2) show ?thesis by blast
  next
    case False
    obtain evs2 r2 where g: "get_replay_info h e u (lookup_id h e u) = (evs2, r2)" by force
    from Cons.prems l False g obtain r where r2: "r2 = Inr r"
      by (cases r2) auto
    show ?thesis
    proof (cases "found + 1 = n")
      case True
      with Cons.prems l False g r2 have "rs = acc @ [r]" by auto
      with True show ?thesis by simp
    next
      case ne: False
      obtain evs' r' where rec: "extract_loop h e n us (acc @ [r]) (found + 1) = (evs', r')"
        by force
      with Cons.prems l False g r2 ne have "r' = Inr rs" by auto
      with rec have "extract_loop h e n us (acc @ [r]) (found + 1) = (evs', Inr rs)" by simp
      moreover have "found + 1 < n" using ne Cons.prems(2) by simp
      ultimately have "int (length rs) \<le> int (length (acc @ [r])) + (n - (found + 1))"
        by (rule Cons.IH)
      then show ?thesis by simp
    qed
  qed
qed

lemma loop_raises:
  "snd (extract_loop h e n us acc found) = Inl ex \<Longrightarrow>
     \<exists>u \<in> set us. has_replay h e u \<and> snd (get_replay_info h e u (lookup_id h e u)) = Inl ex"
proof (induction us arbitrary: acc found)
  case Nil
  then show ?case by simp
next
  case (Cons u us)
  obtain evs1 where l: "get_most_recent_replay_id h e (username u) = (evs1, Inr (lookup_id h e u))"
    using lookup_returns by blast
  show ?case
  proof (cases "lookup_id h e u = ''''")
    case True
    with Cons.prems l have "snd (extract_loop h e n us acc found) = Inl ex"
      by (auto split: prod.splits)
    from Cons.IH[OF this] show ?thesis by auto
  next
    case False
    then have hs: "has_replay h e u" by (simp add: has_replay_def)
    obtain evs2 r2 where g: "get_replay_info h e u (lookup_id h e u) = (evs2, r2)" by force
    show ?thesis
    proof (cases r2)
      case (Inl ex')
      with Cons.prems l False g have "ex' = ex" by auto
      with Inl g hs show ?thesis by auto
    next
      case (Inr r)
      with Cons.prems l False g
      have "snd (extract_loop h e n us (acc @ [r]) (found + 1)) = Inl ex"
        by (auto split: prod.splits if_splits)
      from Cons.IH[OF this] show ?thesis by auto
    qed
  qed
qed

lemmas demo_defs = link_def page_def payload_def ok_response_def table_env_def alice_def bob_def
  carol_def demo_handler_def demo_pages_def demo_env_def empty_handler_def r_handler_def r_env_def

lemmas code_defs = extract_replays_def get_replay_info_def get_replay_json_from_id_def
  get_most_recent_replay_id_def first_replay_id_def href_tail_def link_predicate_def tag_get_def
  and_then_def make_replay_info_def found_msg_def not_found_msg_def ladder_not_found_def Let_def
  sublist_code(3)

subsection \<open>The ranking is unavailable\<close>

text \<open>
  Claim C6. When \<^verbatim>\<open>get_users\<close> returns \<^verbatim>\<open>None\<close> or the empty list, \<open>extract_replays\<close>
  logs one warning and raises \<^verbatim>\<open>LadderNotFoundException\<close> with the message naming the
  format; it returns no list, and no user is looked up.
\<close>

theorem ranking_unavailable:
  assumes "ladder_retriever h (format_id h) = None \<or> ladder_retriever h (format_id h) = Some []"
  shows "extract_replays h e n =
           ([GetUsers (format_id h), Log WARNING ''Could not retrieve ladder rankings, aborting...''],
            Inl (LadderNotFoundException
                   (''Could not retrieve ladder rankings for '' @ format_id h)))"
  using assms by (auto simp: extract_replays_def ladder_not_found_def)

theorem ranking_unavailable_witness:
  "ladder_retriever (empty_handler (Some [])) (format_id (empty_handler (Some []))) = Some [] \<and>
   snd (extract_replays (empty_handler (Some [])) (demo_env (ok_response (payload ''gen8ou-3''))) 5) =
     Inl (LadderNotFoundException ''Could not retrieve ladder rankings for gen8ou'') \<and>
   ladder_retriever (empty_handler None) (format_id (empty_handler None)) = None \<and>
   snd (extract_replays (empty_handler None) (demo_env (ok_response (payload ''gen8ou-3''))) 5) =
     Inl (LadderNotFoundException ''Could not retrieve ladder rankings for gen8ou'')"
  using ranking_unavailable[of "empty_handler (Some [])" "demo_env (ok_response (payload ''gen8ou-3''))" 5]
    ranking_unavailable[of "empty_handler None" "demo_env (ok_response (payload ''gen8ou-3''))" 5]
  by (simp add: empty_handler_def)

subsection \<open>The requested count is clamped\<close>

text \<open>
  Claim C5. A call with the requested count \<open>n\<close> is the call with \<open>min n MAX_USERS\<close>:
  the same events and the same outcome. So every \<open>n\<close> above \<open>MAX_USERS\<close> behaves as
  \<open>MAX_USERS\<close> does, and with a ranking at hand the loop runs with the count
  \<open>min n MAX_USERS\<close>; what the call raises is what the loop raises, the clamp adds no
  error.
\<close>

theorem clamp_requested_count:
  "extract_replays h e n = extract_replays h e (min n (MAX_USERS e)) \<and>
   (MAX_USERS e < n \<longrightarrow> extract_replays h e n = extract_replays h e (MAX_USERS e)) \<and>
   (\<not> falsy_users (ladder_retriever h (format_id h)) \<longrightarrow>
      extract_replays h e n =
        (case extract_loop h e (min n (MAX_USERS e)) (the (ladder_retriever h (format_id h))) [] 0 of
           (evs, r) \<Rightarrow> (GetUsers (format_id h) # evs, r)))"
  by (simp add: extract_replays_def Let_def)

theorem clamp_requested_count_witness:
  "MAX_USERS (demo_env (ok_response (payload ''gen8ou-3''))) < 50 \<and>
   \<not> falsy_users (ladder_retriever demo_handler (format_id demo_handler)) \<and>
   extract_replays demo_handler (demo_env (ok_response (payload ''gen8ou-3''))) 50 =
     extract_replays demo_handler (demo_env (ok_response (payload ''gen8ou-3'')))
       (MAX_USERS (demo_env (ok_response (payload ''gen8ou-3'')))) \<and>
   extract_replays demo_handler (demo_env (ok_response (payload ''gen8ou-3''))) 50 =
     (case extract_loop demo_handler (demo_env (ok_response (payload ''gen8ou-3'')))
             (min 50 (MAX_USERS (demo_env (ok_response (payload ''gen8ou-3'')))))
             (the (ladder_retriever demo_handler (format_id demo_handler))) [] 0 of
        (evs, r) \<Rightarrow> (GetUsers (format_id demo_handler) # evs, r))"
proof -
  have small: "MAX_USERS (demo_env (ok_response (payload ''gen8ou-3''))) < 50"
    by (simp add: demo_env_def table_env_def)
  have ranked: "\<not> falsy_users (ladder_retriever demo_handler (format_id demo_handler))"
    by (simp add: demo_handler_def)
  from clamp_requested_count[of demo_handler "demo_env (ok_response (payload ''gen8ou-3''))" 50]
    small ranked
  show ?thesis by blast
qed

subsection \<open>The result follows the ranking\<close>

lemma demo_run:
  "extract_replays demo_handler (demo_env (ok_response (payload ''gen8ou-3''))) 5 =
     ([GetUsers ''gen8ou'',
       GetSoup (REPLAY_SEARCH_BASE_URL @ ''alice''),
       Log INFO (''Found '' @ [CHR 0x27] @ ''gen8ou'' @ [CHR 0x27] @ '' replay for alice''),
       GetResponse ''https://replay.pokemonshowdown.com/gen8ou-3.json'',
       GetSoup (REPLAY_SEARCH_BASE_URL @ ''bob''),
       Log INFO (''No '' @ [CHR 0x27] @ ''gen8ou'' @ [CHR 0x27]
                 @ '' replays found for bob, continuing to next''),
       GetSoup (REPLAY_SEARCH_BASE_URL @ ''carol''),
       Log INFO (''Found '' @ [CHR 0x27] @ ''gen8ou'' @ [CHR 0x27] @ '' replay for carol''),
       GetResponse ''https://replay.pokemonshowdown.com/gen8ou-5.json''],
      Inr [Some \<lparr>info_id = JStr ''gen8ou-3'', info_username = ''alice'', info_rating = 1500,
                 info_format = JStr ''gen8ou'', info_log = JStr ''|start'',
                 info_uploadtime = JNum 1000\<rparr>,
           Some \<lparr>info_id = JStr ''gen8ou-5'', info_username = ''carol'', info_rating = 1300,
                 info_format = JStr ''gen8ou'', info_log = JStr ''|start'',
                 info_uploadtime = JNum 1000\<rparr>])"
  by (simp add: demo_defs code_defs)

lemma demo_run_one:
  "extract_replays demo_handler (demo_env (ok_response (payload ''gen8ou-3''))) 1 =
     ([GetUsers ''gen8ou'',
       GetSoup (REPLAY_SEARCH_BASE_URL @ ''alice''),
       Log INFO (''Found '' @ [CHR 0x27] @ ''gen8ou'' @ [CHR 0x27] @ '' replay for alice''),
       GetResponse ''https://replay.pokemonshowdown.com/gen8ou-3.json''],
      Inr [Some \<lparr>info_id = JStr ''gen8ou-3'', info_username = ''alice'', info_rating = 1500,
                 info_format = JStr ''gen8ou'', info_log = JStr ''|start'',
                 info_uploadtime = JNum 1000\<rparr>])"
  by (simp add: demo_defs code_defs)

lemma demo_alice_has_replay:
  "has_replay demo_handler (demo_env (ok_response (payload ''gen8ou-3''))) alice"
  by (simp add: has_replay_def lookup_id_def demo_defs code_defs)

text \<open>
  Claim C4. When \<open>extract_replays\<close> returns a list, the loop has processed a prefix
  \<open>take j users\<close> of the ranking: the collaborator calls are those of the users of that
  prefix, in ranking order, and no later user is contacted; the list holds, in ranking
  order, one entry for each user of the prefix whose lookup gave an identifier, the other
  users being left out. The prefix ends where the loop terminates early: when it is not
  the whole ranking, its last user has an identifier and the list has reached the clamped
  count with that user's entry; and inside the prefix no user with an identifier brought
  the number of entries to the clamped count, so the loop never goes on past the user
  whose entry reaches the count.
\<close>

theorem order_preserving_filter:
  assumes "ladder_retriever h (format_id h) = Some users"
      and "extract_replays h e n = (evs, Inr rs)"
  shows "\<exists>j \<le> length users.
           fetches evs = GetUsers (format_id h) # concat (map (user_fetches h e) (take j users)) \<and>
           list_all2 (entry_of h e) (filter (has_replay h e) (take j users)) rs \<and>
           (j < length users \<longrightarrow>
              0 < j \<and> has_replay h e (users ! (j - 1)) \<and>
              int (length rs) = min n (MAX_USERS e)) \<and>
           (\<forall>i. Suc i < j \<and> has_replay h e (users ! i) \<longrightarrow>
              int (length (filter (has_replay h e) (take (Suc i) users))) \<noteq> min n (MAX_USERS e))"
proof -
  from assms have nf: "users \<noteq> []"
    by (auto simp: extract_replays_def)
  obtain evs' r' where lp: "extract_loop h e (min n (MAX_USERS e)) users [] 0 = (evs', r')"
    by force
  with assms nf have "r' = Inr rs" and ev: "evs = GetUsers (format_id h) # evs'"
    by (auto simp: extract_replays_def Let_def)
  with lp have "extract_loop h e (min n (MAX_USERS e)) users [] 0 = (evs', Inr rs)" by simp
  from loop_shape[OF this] obtain j where j: "j \<le> length users"
    "fetches evs' = concat (map (user_fetches h e) (take j users))"
    "list_all2 (entry_of h e) (filter (has_replay h e) (take j users)) rs"
    "j < length users \<longrightarrow>
       0 < j \<and> has_replay h e (users ! (j - 1)) \<and> int (length rs) = min n (MAX_USERS e)"
    "\<forall>i. Suc i < j \<and> has_replay h e (users ! i) \<longrightarrow>
       int (length (filter (has_replay h e) (take (Suc i) users))) \<noteq> min n (MAX_USERS e)"
    by auto
  from ev j(2) have "fetches evs =
      GetUsers (format_id h) # concat (map (user_fetches h e) (take j users))"
    by (simp add: fetches_simps)
  with j show ?thesis by blast
qed

theorem order_preserving_filter_witness:
  "ladder_retriever demo_handler (format_id demo_handler) = Some [alice, bob, carol] \<and>
   snd (extract_replays demo_handler (demo_env (ok_response (payload ''gen8ou-3''))) 5) =
     Inr [Some \<lparr>info_id = JStr ''gen8ou-3'', info_username = ''alice'', info_rating = 1500,
                info_format = JStr ''gen8ou'', info_log = JStr ''|start'',
                info_uploadtime = JNum 1000\<rparr>,
          Some \<lparr>info_id = JStr ''gen8ou-5'', info_username = ''carol'', info_rating = 1300,
                info_format = JStr ''gen8ou'', info_log = JStr ''|start'',
                info_uploadtime = JNum 1000\<rparr>] \<and>
   (\<exists>j \<le> length [alice, bob, carol].
      fetches (fst (extract_replays demo_handler (demo_env (ok_response (payload ''gen8ou-3''))) 5)) =
        GetUsers (format_id demo_handler) #
          concat (map (user_fetches demo_handler (demo_env (ok_response (payload ''gen8ou-3''))))
                    (take j [alice, bob, carol])) \<and>
      list_all2 (entry_of demo_handler (demo_env (ok_response (payload ''gen8ou-3''))))
        (filter (has_replay demo_handler (demo_env (ok_response (payload ''gen8ou-3''))))
           (take j [alice, bob, carol]))
        [Some \<lparr>info_id = JStr ''gen8ou-3'', info_username = ''alice'', info_rating = 1500,
                info_format = JStr ''gen8ou'', info_log = JStr ''|start'',
                info_uploadtime = JNum 1000\<rparr>,
         Some \<lparr>info_id = JStr ''gen8ou-5'', info_username = ''carol'', info_rating = 1300,
                info_format = JStr ''gen8ou'', info_log = JStr ''|start'',
                info_uploadtime = JNum 1000\<rparr>]) \<and>
   snd (extract_replays demo_handler (demo_env (ok_response (payload ''gen8ou-3''))) 1) =
     Inr [Some \<lparr>info_id = JStr ''gen8ou-3'', info_username = ''alice'', info_rating = 1500,
                info_format = JStr ''gen8ou'', info_log = JStr ''|start'',
                info_uploadtime = JNum 1000\<rparr>] \<and>
   (\<exists>j \<le> 1.
      fetches (fst (extract_replays demo_handler (demo_env (ok_response (payload ''gen8ou-3''))) 1)) =
        GetUsers (format_id demo_handler) #
          concat (map (user_fetches demo_handler (demo_env (ok_response (payload ''gen8ou-3''))))
                    (take j [alice, bob, carol])))"
proof -
  let ?e = "demo_env (ok_response (payload ''gen8ou-3''))"
  have ranked: "ladder_retriever demo_handler (format_id demo_handler) = Some [alice, bob, carol]"
    by (simp add: demo_handler_def)
  have count: "min 1 (MAX_USERS ?e) = 1"
    by (simp add: demo_env_def table_env_def)
  from order_preserving_filter[OF ranked demo_run_one] obtain j
    where f: "fetches (fst (extract_replays demo_handler ?e 1)) =
        GetUsers (format_id demo_handler) #
          concat (map (user_fetches demo_handler ?e) (take j [alice, bob, carol]))"
      and early: "\<forall>i. Suc i < j \<and> has_replay demo_handler ?e ([alice, bob, carol] ! i) \<longrightarrow>
        int (length (filter (has_replay demo_handler ?e) (take (Suc i) [alice, bob, carol])))
          \<noteq> min 1 (MAX_USERS ?e)"
    by (auto simp: demo_run_one)
  have "j \<le> 1"
  proof (rule ccontr)
    assume "\<not> j \<le> 1"
    then have "Suc 0 < j" by simp
    with early demo_alice_has_replay
    have "int (length (filter (has_replay demo_handler ?e) (take (Suc 0) [alice, bob, carol])))
            \<noteq> min 1 (MAX_USERS ?e)"
      by (metis nth_Cons_0)
    with demo_alice_has_replay count show False by simp
  qed
  with f have stop: "\<exists>j \<le> 1. fetches (fst (extract_replays demo_handler ?e 1)) =
        GetUsers (format_id demo_handler) #
          concat (map (user_fetches demo_handler ?e) (take j [alice, bob, carol]))"
    by blast
  from order_preserving_filter[OF ranked demo_run] ranked stop show ?thesis
    by (auto simp: demo_run demo_run_one)
qed

subsection \<open>A payload without a required key\<close>

text \<open>
  Claim C7. When the payload \<open>_get_replay_json_from_id\<close> returns is a dict that lacks one
  of the keys id, format, log, uploadtime, \<open>_get_replay_info\<close> raises \<^verbatim>\<open>KeyError\<close> for the
  first absent key in that order, after logging the error "Replay key not found"; so it
  returns no record.
\<close>

theorem missing_key_raises:
  assumes "get_replay_json_from_id e rid = (evs, Inr (JObj kvs))"
      and "\<not> list_all (\<lambda>k. map_of kvs k \<noteq> None) required_keys"
  shows "\<exists>k. find (\<lambda>k. map_of kvs k = None) required_keys = Some k \<and>
             k \<in> set required_keys \<and> map_of kvs k = None \<and>
             get_replay_info h e u rid =
               (evs @ [Log ERROR ''Replay key not found''], Inl (KeyError k))"
  using assms
  by (auto simp: get_replay_info_def make_replay_info_def and_then_def required_keys_def
      split: option.splits)

theorem missing_key_raises_witness:
  "get_replay_json_from_id
     (demo_env (ok_response (JObj [(''id'', JStr ''gen8ou-3''), (''format'', JStr ''gen8ou''),
                                   (''uploadtime'', JNum 1000)]))) ''gen8ou-3'' =
     ([GetResponse ''https://replay.pokemonshowdown.com/gen8ou-3.json''],
      Inr (JObj [(''id'', JStr ''gen8ou-3''), (''format'', JStr ''gen8ou''),
                 (''uploadtime'', JNum 1000)])) \<and>
   \<not> list_all (\<lambda>k. map_of [(''id'', JStr ''gen8ou-3''), (''format'', JStr ''gen8ou''),
                             (''uploadtime'', JNum 1000)] k \<noteq> None) required_keys \<and>
   get_replay_info demo_handler
     (demo_env (ok_response (JObj [(''id'', JStr ''gen8ou-3''), (''format'', JStr ''gen8ou''),
                                   (''uploadtime'', JNum 1000)]))) alice ''gen8ou-3'' =
     ([GetResponse ''https://replay.pokemonshowdown.com/gen8ou-3.json'',
       Log ERROR ''Replay key not found''], Inl (KeyError ''log''))"
proof -
  let ?kvs = "[(''id'', JStr ''gen8ou-3''), (''format'', JStr ''gen8ou''), (''uploadtime'', JNum 1000)]"
  let ?e = "demo_env (ok_response (JObj ?kvs))"
  have fetched: "get_replay_json_from_id ?e ''gen8ou-3'' =
      ([GetResponse ''https://replay.pokemonshowdown.com/gen8ou-3.json''], Inr (JObj ?kvs))"
    by (simp add: demo_defs get_replay_json_from_id_def and_then_def)
  have lacks: "\<not> list_all (\<lambda>k. map_of ?kvs k \<noteq> None) required_keys"
    by (simp add: required_keys_def)
  from missing_key_raises[OF fetched lacks, of demo_handler alice] fetched lacks
  show ?thesis by (simp add: required_keys_def)
qed

subsection \<open>The lookup\<close>

lemma find_all_links:
  "find_all (link_predicate fmt) ts = Inr r \<Longrightarrow>
     r = filter (\<lambda>t. tag_name t = ''a'' \<and>
                     (case tag_get t ''href'' of None \<Rightarrow> False | Some href \<Rightarrow> sublist fmt href)) ts"
  by (induction ts arbitrary: r)
     (auto simp: link_predicate_def split: sum.splits option.splits if_splits)

lemma find_all_returns:
  "list_all (\<lambda>t. tag_name t \<noteq> ''a'' \<or> tag_get t ''href'' \<noteq> None) ts \<Longrightarrow>
     \<exists>r. find_all (link_predicate fmt) ts = Inr r"
  by (induction ts) (auto simp: link_predicate_def split: sum.splits option.splits)

lemma comprehension_links:
  "comprehension href_tail ts = Inr ids \<Longrightarrow> ids = map link_id ts"
  by (induction ts arbitrary: ids)
     (auto simp: href_tail_def link_id_def split: sum.splits option.splits)

lemma comprehension_returns:
  "list_all (\<lambda>t. tag_get t ''href'' \<noteq> None) ts \<Longrightarrow> \<exists>ids. comprehension href_tail ts = Inr ids"
  by (induction ts) (auto simp: href_tail_def split: sum.splits option.splits)

lemma first_replay_id_value:
  assumes "first_replay_id fmt soup = Inr r"
  shows "r = (case matching_links fmt soup of [] \<Rightarrow> '''' | t # ts \<Rightarrow> link_id t)"
proof -
  from assms obtain found ids where f: "find_all (link_predicate fmt) (descendants soup) = Inr found"
    and c: "comprehension href_tail found = Inr ids"
    and r: "r = (case ids of [] \<Rightarrow> '''' | x # xs \<Rightarrow> x)"
    by (auto simp: first_replay_id_def and_then_def split: sum.splits)
  from find_all_links[OF f] have "found = matching_links fmt soup"
    by (simp add: matching_links_def)
  with comprehension_links[OF c] r show ?thesis
    by (simp split: list.splits)
qed

lemma first_replay_id_returns:
  assumes "anchors_have_href soup"
  shows "\<exists>r. first_replay_id fmt soup = Inr r"
proof -
  from assms obtain found where f: "find_all (link_predicate fmt) (descendants soup) = Inr found"
    using find_all_returns by (auto simp: anchors_have_href_def)
  from find_all_links[OF f] have "list_all (\<lambda>t. tag_get t ''href'' \<noteq> None) found"
    by (auto simp: list_all_iff split: option.splits)
  from comprehension_returns[OF this] f show ?thesis
    by (auto simp: first_replay_id_def and_then_def)
qed

text \<open>
  Claim C9. \<open>_get_most_recent_replay_id\<close> always returns and never raises. It returns the
  empty string when the fetched page has no link that matches the format, and, with a
  warning in the log, when fetching the page or scanning it raises. In \<open>extract_replays\<close>
  the iteration of a user whose lookup returns the empty string logs one line and goes
  on with the next user, the list and the count unchanged.
\<close>

theorem lookup_never_raises:
  "(\<exists>evs r. get_most_recent_replay_id h e name = (evs, Inr r)) \<and>
   (\<forall>soup. get_soup_from_url e (REPLAY_SEARCH_BASE_URL @ name) = Inr soup \<and>
           matching_links (format_id h) soup = [] \<longrightarrow>
           snd (get_most_recent_replay_id h e name) = Inr '''') \<and>
   (\<forall>ex. and_then (get_soup_from_url e (REPLAY_SEARCH_BASE_URL @ name))
              (first_replay_id (format_id h)) = Inl ex \<longrightarrow>
         get_most_recent_replay_id h e name =
           ([GetSoup (REPLAY_SEARCH_BASE_URL @ name),
             Log WARNING (''Unable to reach server for replays: '' @ str_exn ex)], Inr '''')) \<and>
   (\<forall>evs1. get_most_recent_replay_id h e (username u) = (evs1, Inr '''') \<longrightarrow>
         extract_loop h e n (u # us) acc found =
           (case extract_loop h e n us acc found of
              (evs, r) \<Rightarrow> (evs1 @ [Log INFO (not_found_msg h u)] @ evs, r)))"
proof (intro conjI allI impI)
  show "\<exists>evs r. get_most_recent_replay_id h e name = (evs, Inr r)"
    by (simp add: get_most_recent_replay_id_def Let_def split: sum.splits)
next
  fix soup
  assume a: "get_soup_from_url e (REPLAY_SEARCH_BASE_URL @ name) = Inr soup \<and>
             matching_links (format_id h) soup = []"
  show "snd (get_most_recent_replay_id h e name) = Inr ''''"
  proof (cases "first_replay_id (format_id h) soup")
    case (Inl ex)
    with a show ?thesis by (simp add: get_most_recent_replay_id_def Let_def and_then_def)
  next
    case (Inr r)
    from first_replay_id_value[OF this] a have "r = ''''" by simp
    with Inr a show ?thesis by (simp add: get_most_recent_replay_id_def Let_def and_then_def)
  qed
next
  fix ex
  assume "and_then (get_soup_from_url e (REPLAY_SEARCH_BASE_URL @ name))
            (first_replay_id (format_id h)) = Inl ex"
  then show "get_most_recent_replay_id h e name =
           ([GetSoup (REPLAY_SEARCH_BASE_URL @ name),
             Log WARNING (''Unable to reach server for replays: '' @ str_exn ex)], Inr '''')"
    by (simp add: get_most_recent_replay_id_def Let_def)
next
  fix evs1
  assume "get_most_recent_replay_id h e (username u) = (evs1, Inr '''')"
  then show "extract_loop h e n (u # us) acc found =
           (case extract_loop h e n us acc found of
              (evs, r) \<Rightarrow> (evs1 @ [Log INFO (not_found_msg h u)] @ evs, r))"
    by simp
qed

theorem lookup_never_raises_witness:
  "get_soup_from_url (demo_env (ok_response (payload ''gen8ou-3''))) (REPLAY_SEARCH_BASE_URL @ ''bob'') =
     Inr (page [link ''/gen7ou-9'']) \<and>
   matching_links (format_id demo_handler) (page [link ''/gen7ou-9'']) = [] \<and>
   snd (get_most_recent_replay_id demo_handler (demo_env (ok_response (payload ''gen8ou-3''))) ''bob'') =
     Inr '''' \<and>
   and_then (get_soup_from_url (demo_env (ok_response (payload ''gen8ou-3'')))
               (REPLAY_SEARCH_BASE_URL @ ''dave''))
     (first_replay_id (format_id demo_handler)) = Inl (RequestException ''no route to host'') \<and>
   get_most_recent_replay_id demo_handler (demo_env (ok_response (payload ''gen8ou-3''))) ''dave'' =
     ([GetSoup (REPLAY_SEARCH_BASE_URL @ ''dave''),
       Log WARNING ''Unable to reach server for replays: no route to host''], Inr '''') \<and>
   get_most_recent_replay_id demo_handler (demo_env (ok_response (payload ''gen8ou-3'')))
     (username bob) = ([GetSoup (REPLAY_SEARCH_BASE_URL @ ''bob'')], Inr '''') \<and>
   extract_loop demo_handler (demo_env (ok_response (payload ''gen8ou-3''))) 5 [bob, carol] [] 0 =
     (case extract_loop demo_handler (demo_env (ok_response (payload ''gen8ou-3''))) 5 [carol] [] 0 of
        (evs, r) \<Rightarrow>
          ([GetSoup (REPLAY_SEARCH_BASE_URL @ ''bob'')] @ [Log INFO (not_found_msg demo_handler bob)]
             @ evs, r))"
proof -
  let ?e = "demo_env (ok_response (payload ''gen8ou-3''))"
  have pg: "get_soup_from_url ?e (REPLAY_SEARCH_BASE_URL @ ''bob'') = Inr (page [link ''/gen7ou-9''])"
    by (simp add: demo_defs)
  have none: "matching_links (format_id demo_handler) (page [link ''/gen7ou-9'']) = []"
    by (simp add: demo_defs matching_links_def tag_get_def sublist_code(3))
  have unreachable: "and_then (get_soup_from_url ?e (REPLAY_SEARCH_BASE_URL @ ''dave''))
      (first_replay_id (format_id demo_handler)) = Inl (RequestException ''no route to host'')"
    by (simp add: demo_defs and_then_def)
  have lk: "get_most_recent_replay_id demo_handler ?e (username bob) =
      ([GetSoup (REPLAY_SEARCH_BASE_URL @ ''bob'')], Inr '''')"
    by (simp add: demo_defs code_defs)
  from lookup_never_raises[of demo_handler ?e "''bob''" bob 5 "[carol]" "[]" 0]
    lookup_never_raises[of demo_handler ?e "''dave''"] pg none unreachable lk
  show ?thesis by simp
qed

subsection \<open>The first matching link\<close>

text \<open>
  On a fetched page in which every anchor has an \<open>href\<close>, the lookup returns the
  identifier of the first anchor, in document order, whose \<open>href\<close> contains the format
  identifier: that \<open>href\<close> without its first character; it returns the empty string when
  no anchor matches. The links are not sorted.
\<close>

lemma first_matching_link:
  assumes "get_soup_from_url e (REPLAY_SEARCH_BASE_URL @ name) = Inr soup"
      and "anchors_have_href soup"
  shows "get_most_recent_replay_id h e name =
           ([GetSoup (REPLAY_SEARCH_BASE_URL @ name)],
            Inr (case matching_links (format_id h) soup of [] \<Rightarrow> '''' | t # ts \<Rightarrow> link_id t))"
proof -
  from first_replay_id_returns[OF assms(2)] obtain r
    where r: "first_replay_id (format_id h) soup = Inr r" by blast
  from first_replay_id_value[OF r] r assms(1) show ?thesis
    by (simp add: get_most_recent_replay_id_def Let_def and_then_def)
qed

lemma first_matching_link_example:
  "get_soup_from_url (r_env (page [link ''/r3'', link ''/r2'', link ''/r1'']))
     (REPLAY_SEARCH_BASE_URL @ ''alice'') = Inr (page [link ''/r3'', link ''/r2'', link ''/r1'']) \<and>
   anchors_have_href (page [link ''/r3'', link ''/r2'', link ''/r1'']) \<and>
   map link_id (matching_links (format_id r_handler) (page [link ''/r3'', link ''/r2'', link ''/r1'']))
     = [''r3'', ''r2'', ''r1''] \<and>
   get_most_recent_replay_id r_handler (r_env (page [link ''/r3'', link ''/r2'', link ''/r1'']))
     ''alice'' = ([GetSoup (REPLAY_SEARCH_BASE_URL @ ''alice'')], Inr ''r3'')"
proof -
  let ?p = "page [link ''/r3'', link ''/r2'', link ''/r1'']"
  have pg: "get_soup_from_url (r_env ?p) (REPLAY_SEARCH_BASE_URL @ ''alice'') = Inr ?p"
    by (simp add: demo_defs)
  have hrefs: "anchors_have_href ?p"
    by (simp add: demo_defs anchors_have_href_def tag_get_def)
  have links: "matching_links (format_id r_handler) ?p =
      [Tag ''a'' [(''href'', ''/r3''), (''data-target'', ''push'')] [Tag ''small'' [] []],
       Tag ''a'' [(''href'', ''/r2''), (''data-target'', ''push'')] [Tag ''small'' [] []],
       Tag ''a'' [(''href'', ''/r1''), (''data-target'', ''push'')] [Tag ''small'' [] []]]"
    by (simp add: demo_defs matching_links_def tag_get_def sublist_code(3))
  from first_matching_link[OF pg hrefs, of r_handler] pg hrefs links
  show ?thesis by (simp add: link_id_def tag_get_def)
qed

text \<open>
  Claim C8 says that on every search-results page the lookup returns the first link whose
  \<open>href\<close> contains the format identifier, without its first character. The code differs
  on a page with an anchor that has no \<open>href\<close>. Here such an anchor stands before the
  links /r3, /r2, /r1, which match in this order: the predicate given to \<^verbatim>\<open>find_all\<close>
  raises \<^verbatim>\<open>TypeError\<close> on that anchor, the handler logs that the server could not be
  reached, and the lookup returns the empty string instead of r3.
\<close>

theorem anchor_without_href_lookup:
  "get_soup_from_url
     (r_env (page [Tag ''a'' [(''name'', ''top'')] [], link ''/r3'', link ''/r2'', link ''/r1'']))
     (REPLAY_SEARCH_BASE_URL @ ''alice'') =
     Inr (page [Tag ''a'' [(''name'', ''top'')] [], link ''/r3'', link ''/r2'', link ''/r1'']) \<and>
   map link_id (matching_links (format_id r_handler)
     (page [Tag ''a'' [(''name'', ''top'')] [], link ''/r3'', link ''/r2'', link ''/r1'']))
     = [''r3'', ''r2'', ''r1''] \<and>
   get_most_recent_replay_id r_handler
     (r_env (page [Tag ''a'' [(''name'', ''top'')] [], link ''/r3'', link ''/r2'', link ''/r1'']))
     ''alice'' =
     ([GetSoup (REPLAY_SEARCH_BASE_URL @ ''alice''),
       Log WARNING
         ''Unable to reach server for replays: argument of type NoneType is not iterable''],
      Inr '''')"
  by (simp add: demo_defs code_defs matching_links_def link_id_def)

subsection \<open>An empty response\<close>

lemma empty_response_json:
  assumes "get_response_from_url e (json_url e rid) = Inr res" and "falsy_response res"
  shows "get_replay_json_from_id e rid = ([GetResponse (json_url e rid)], Inr (JObj []))"
  using assms
  by (cases res) (auto simp: get_replay_json_from_id_def json_url_def and_then_def)

lemma empty_response_info:
  assumes "get_response_from_url e (json_url e rid) = Inr res" and "falsy_response res"
  shows "get_replay_info h e u rid =
           ([GetResponse (json_url e rid), Log ERROR ''Replay key not found''],
            Inl (KeyError ''id''))"
  using empty_response_json[OF assms]
  by (simp add: get_replay_info_def make_replay_info_def and_then_def)

lemma json_url_inject: "json_url e a = json_url e b \<Longrightarrow> a = b"
  by (simp add: json_url_def)

lemma response_in_fetches: "GetResponse url \<in> set evs \<longleftrightarrow> GetResponse url \<in> set (fetches evs)"
  by (auto simp: fetches_def)

lemma loop_empty_response:
  assumes "get_response_from_url e (json_url e rid) = Inr res" and "falsy_response res"
  shows "GetResponse (json_url e rid) \<in> set (fst (extract_loop h e n us acc found)) \<Longrightarrow>
           snd (extract_loop h e n us acc found) = Inl (KeyError ''id'')"
proof (induction us arbitrary: acc found)
  case Nil
  then show ?case by simp
next
  case (Cons u us)
  obtain evs1 where l: "get_most_recent_replay_id h e (username u) = (evs1, Inr (lookup_id h e u))"
    and s1: "fetches evs1 = [GetSoup (search_url u)]"
    using lookup_returns by blast
  from s1 have n1: "GetResponse (json_url e rid) \<notin> set evs1"
    by (simp add: response_in_fetches)
  show ?case
  proof (cases "lookup_id h e u = ''''")
    case True
    with Cons.prems l n1 have "GetResponse (json_url e rid) \<in> set (fst (extract_loop h e n us acc found))"
      by (auto split: prod.splits)
    from Cons.IH[OF this] l True show ?thesis by (auto split: prod.splits)
  next
    case False
    obtain evs2 r2 where g: "get_replay_info h e u (lookup_id h e u) = (evs2, r2)" by force
    show ?thesis
    proof (cases "lookup_id h e u = rid")
      case True
      with g empty_response_info[OF assms, of h u] have "r2 = Inl (KeyError ''id'')" by simp
      with l False g show ?thesis by simp
    next
      case other: False
      have "fetches evs2 = [GetResponse (json_url e (lookup_id h e u))]"
        using info_fetches[of h e u "lookup_id h e u"] g by simp
      with other have n2: "GetResponse (json_url e rid) \<notin> set evs2"
        by (auto simp: response_in_fetches dest: json_url_inject)
      with Cons.prems l False g n1 obtain r where r2: "r2 = Inr r" and ne: "found + 1 \<noteq> n"
        by (cases r2) (auto split: if_splits)
      with Cons.prems l False g n1 n2
      have "GetResponse (json_url e rid) \<in>
              set (fst (extract_loop h e n us (acc @ [r]) (found + 1)))"
        by (auto split: prod.splits)
      from Cons.IH[OF this] l False g r2 ne show ?thesis by (auto split: prod.splits)
    qed
  qed
qed

text \<open>
  Claim C10. When \<^verbatim>\<open>get_response_from_url\<close> returns \<^verbatim>\<open>None\<close> or a false response for a
  replay, \<open>_get_replay_json_from_id\<close> returns the empty dict, \<open>_get_replay_info\<close> raises
  \<^verbatim>\<open>KeyError\<close> for the key id, and a call of \<open>extract_replays\<close> that fetches this replay
  ends with that \<^verbatim>\<open>KeyError\<close> and returns no list.
\<close>

theorem empty_response_aborts:
  assumes "get_response_from_url e (json_url e rid) = Inr res" and "falsy_response res"
  shows "get_replay_json_from_id e rid = ([GetResponse (json_url e rid)], Inr (JObj [])) \<and>
         snd (get_replay_info h e u rid) = Inl (KeyError ''id'') \<and>
         (GetResponse (json_url e rid) \<in> set (fst (extract_replays h e n)) \<longrightarrow>
            snd (extract_replays h e n) = Inl (KeyError ''id''))"
proof (intro conjI impI)
  show "get_replay_json_from_id e rid = ([GetResponse (json_url e rid)], Inr (JObj []))"
    by (rule empty_response_json[OF assms])
  show "snd (get_replay_info h e u rid) = Inl (KeyError ''id'')"
    by (simp add: empty_response_info[OF assms])
  assume m: "GetResponse (json_url e rid) \<in> set (fst (extract_replays h e n))"
  then have nf: "\<not> falsy_users (ladder_retriever h (format_id h))"
    by (auto simp: extract_replays_def Let_def split: if_splits)
  with m have "GetResponse (json_url e rid) \<in>
      set (fst (extract_loop h e (min n (MAX_USERS e)) (the (ladder_retriever h (format_id h))) [] 0))"
    by (auto simp: extract_replays_def Let_def split: prod.splits)
  from loop_empty_response[OF assms this] nf
  show "snd (extract_replays h e n) = Inl (KeyError ''id'')"
    by (auto simp: extract_replays_def Let_def split: prod.splits)
qed

lemma empty_run:
  "extract_replays demo_handler (demo_env (Inr None)) 5 =
     ([GetUsers ''gen8ou'',
       GetSoup (REPLAY_SEARCH_BASE_URL @ ''alice''),
       Log INFO (''Found '' @ [CHR 0x27] @ ''gen8ou'' @ [CHR 0x27] @ '' replay for alice''),
       GetResponse ''https://replay.pokemonshowdown.com/gen8ou-3.json'',
       Log ERROR ''Replay key not found''],
      Inl (KeyError ''id''))"
  by (simp add: demo_defs code_defs)

theorem empty_response_aborts_witness:
  "get_response_from_url (demo_env (Inr None)) (json_url (demo_env (Inr None)) ''gen8ou-3'') = Inr None \<and>
   falsy_response None \<and>
   GetResponse (json_url (demo_env (Inr None)) ''gen8ou-3'') \<in>
     set (fst (extract_replays demo_handler (demo_env (Inr None)) 5)) \<and>
   snd (get_replay_json_from_id (demo_env (Inr None)) ''gen8ou-3'') = Inr (JObj []) \<and>
   snd (get_replay_info demo_handler (demo_env (Inr None)) alice ''gen8ou-3'') = Inl (KeyError ''id'') \<and>
   snd (extract_replays demo_handler (demo_env (Inr None)) 5) = Inl (KeyError ''id'')"
proof -
  have fetched: "get_response_from_url (demo_env (Inr None))
      (json_url (demo_env (Inr None)) ''gen8ou-3'') = Inr None"
    by (simp add: demo_defs json_url_def)
  have falsy: "falsy_response None" by simp
  have reached: "GetResponse (json_url (demo_env (Inr None)) ''gen8ou-3'') \<in>
      set (fst (extract_replays demo_handler (demo_env (Inr None)) 5))"
    by (simp add: empty_run) (simp add: demo_defs json_url_def)
  from empty_response_aborts[OF fetched falsy, of demo_handler alice 5] fetched reached
  show ?thesis by simp
qed

subsection \<open>What makes a call fail\<close>

text \<open>
  Claim C2, amended. A call of \<open>extract_replays\<close> fails in two cases only: the ranking is
  empty or unavailable, and it raises \<^verbatim>\<open>LadderNotFoundException\<close>; or \<open>_get_replay_info\<close>
  raises \<^verbatim>\<open>KeyError\<close> for a ranked user whose lookup gave an identifier, and it raises that
  \<^verbatim>\<open>KeyError\<close>. The lookup itself never raises, and \<open>_get_replay_info\<close> raises nothing
  but a \<^verbatim>\<open>KeyError\<close>: a failed lookup or a failed fetch of another kind does not end
  the call.
\<close>

theorem failure_conditions:
  "(\<exists>evs r. get_most_recent_replay_id h e name = (evs, Inr r)) \<and>
   (\<forall>ex. snd (get_replay_info h e u rid) = Inl ex \<longrightarrow> (\<exists>k. ex = KeyError k)) \<and>
   (\<forall>ex. snd (extract_replays h e n) = Inl ex \<longrightarrow>
      (falsy_users (ladder_retriever h (format_id h)) \<and>
       ex = LadderNotFoundException (''Could not retrieve ladder rankings for '' @ format_id h)) \<or>
      (\<exists>users v k. ladder_retriever h (format_id h) = Some users \<and> v \<in> set users \<and>
         has_replay h e v \<and> ex = KeyError k \<and>
         snd (get_replay_info h e v (lookup_id h e v)) = Inl (KeyError k)))"
proof (intro conjI allI impI)
  show "\<exists>evs r. get_most_recent_replay_id h e name = (evs, Inr r)"
    by (simp add: get_most_recent_replay_id_def Let_def split: sum.splits)
next
  fix ex
  assume "snd (get_replay_info h e u rid) = Inl ex"
  then show "\<exists>k. ex = KeyError k" by (rule info_raises_KeyError)
next
  fix ex
  assume a: "snd (extract_replays h e n) = Inl ex"
  show "(falsy_users (ladder_retriever h (format_id h)) \<and>
       ex = LadderNotFoundException (''Could not retrieve ladder rankings for '' @ format_id h)) \<or>
      (\<exists>users v k. ladder_retriever h (format_id h) = Some users \<and> v \<in> set users \<and>
         has_replay h e v \<and> ex = KeyError k \<and>
         snd (get_replay_info h e v (lookup_id h e v)) = Inl (KeyError k))"
  proof (cases "falsy_users (ladder_retriever h (format_id h))")
    case True
    with a show ?thesis by (simp add: extract_replays_def ladder_not_found_def)
  next
    case False
    then obtain users where us: "ladder_retriever h (format_id h) = Some users"
      by (cases "ladder_retriever h (format_id h)") auto
    with a False have "snd (extract_loop h e (min n (MAX_USERS e)) users [] 0) = Inl ex"
      by (auto simp: extract_replays_def Let_def split: prod.splits)
    from loop_raises[OF this] obtain v where v: "v \<in> set users" "has_replay h e v"
      "snd (get_replay_info h e v (lookup_id h e v)) = Inl ex" by blast
    from info_raises_KeyError[OF v(3)] obtain k where "ex = KeyError k" by blast
    with us v show ?thesis by blast
  qed
qed

theorem failure_conditions_witness:
  "snd (get_replay_info demo_handler
          (demo_env (ok_response (JObj [(''id'', JStr ''gen8ou-3''), (''format'', JStr ''gen8ou''),
                                        (''log'', JStr ''|start'')])))
          alice ''gen8ou-3'') = Inl (KeyError ''uploadtime'') \<and>
   snd (extract_replays demo_handler
          (demo_env (ok_response (JObj [(''id'', JStr ''gen8ou-3''), (''format'', JStr ''gen8ou''),
                                        (''log'', JStr ''|start'')]))) 5) =
     Inl (KeyError ''uploadtime'') \<and>
   \<not> falsy_users (ladder_retriever demo_handler (format_id demo_handler)) \<and>
   (\<exists>users v. ladder_retriever demo_handler (format_id demo_handler) = Some users \<and>
      v \<in> set users \<and>
      snd (get_replay_info demo_handler
             (demo_env (ok_response (JObj [(''id'', JStr ''gen8ou-3''), (''format'', JStr ''gen8ou''),
                                           (''log'', JStr ''|start'')])))
             v (lookup_id demo_handler
                  (demo_env (ok_response (JObj [(''id'', JStr ''gen8ou-3''),
                                                (''format'', JStr ''gen8ou''),
                                                (''log'', JStr ''|start'')]))) v)) =
        Inl (KeyError ''uploadtime''))"
proof -
  let ?e = "demo_env (ok_response (JObj [(''id'', JStr ''gen8ou-3''), (''format'', JStr ''gen8ou''),
                                         (''log'', JStr ''|start'')]))"
  have info: "snd (get_replay_info demo_handler ?e alice ''gen8ou-3'') = Inl (KeyError ''uploadtime'')"
    by (simp add: demo_defs code_defs)
  have run: "snd (extract_replays demo_handler ?e 5) = Inl (KeyError ''uploadtime'')"
    by (simp add: demo_defs code_defs)
  have ranked: "\<not> falsy_users (ladder_retriever demo_handler (format_id demo_handler))"
    by (simp add: demo_handler_def)
  from failure_conditions[of demo_handler ?e "''alice''" alice "''gen8ou-3''" 5] info run ranked
  show ?thesis by auto
qed

text \<open>
  The claim as stated fails: with a ranking at hand, a payload without the key format for
  the first user ends the call with \<^verbatim>\<open>KeyError\<close>, though the third user has a replay.
\<close>

theorem failure_conditions_counterexample:
  "\<not> falsy_users (ladder_retriever demo_handler (format_id demo_handler)) \<and>
   has_replay demo_handler (demo_env (ok_response (JObj [(''id'', JStr ''gen8ou-3'')]))) carol \<and>
   snd (extract_replays demo_handler (demo_env (ok_response (JObj [(''id'', JStr ''gen8ou-3'')]))) 5) =
     Inl (KeyError ''format'')"
  by (simp add: demo_defs code_defs has_replay_def lookup_id_def)

subsection \<open>A replay whose fetch fails\<close>

text \<open>
  Claim C1 says that a user whose replay fetch fails with an error other than \<^verbatim>\<open>KeyError\<close>
  leaves no entry in the list and is not counted. The code differs. Here the fetch of the
  first user's replay raises a \<^verbatim>\<open>RequestException\<close>: \<open>_get_replay_info\<close> logs the error
  and returns \<^verbatim>\<open>None\<close>, and the loop appends this \<^verbatim>\<open>None\<close> and counts it. With the
  requested count 1 the call returns the list \<open>[None]\<close> and stops before the later
  users; with the count 5 the list has \<^verbatim>\<open>None\<close> in the first user's place.
\<close>

theorem fetch_failure_entry:
  "extract_replays demo_handler (demo_env (Inl (RequestException ''timed out''))) 1 =
     ([GetUsers ''gen8ou'',
       GetSoup (REPLAY_SEARCH_BASE_URL @ ''alice''),
       Log INFO (''Found '' @ [CHR 0x27] @ ''gen8ou'' @ [CHR 0x27] @ '' replay for alice''),
       GetResponse ''https://replay.pokemonshowdown.com/gen8ou-3.json'',
       Log ERROR ''Unable to retrieve replay: timed out''],
      Inr [None]) \<and>
   snd (extract_replays demo_handler (demo_env (Inl (RequestException ''timed out''))) 5) =
     Inr [None,
          Some \<lparr>info_id = JStr ''gen8ou-5'', info_username = ''carol'', info_rating = 1300,
                info_format = JStr ''gen8ou'', info_log = JStr ''|start'',
                info_uploadtime = JNum 1000\<rparr>]"
  by (simp add: demo_defs code_defs)

subsection \<open>The length of the result\<close>

lemma filter_take_length: "length (filter P (take j xs)) \<le> length (filter P xs)"
proof -
  have "length (filter P xs) = length (filter P (take j xs @ drop j xs))" by simp
  also have "\<dots> = length (filter P (take j xs)) + length (filter P (drop j xs))"
    by (simp only: filter_append length_append)
  finally show ?thesis by simp
qed

lemma result_length_bound:
  assumes "ladder_retriever h (format_id h) = Some users"
      and "extract_replays h e n = (evs, Inr rs)"
  shows "length rs \<le> length (filter (has_replay h e) users)"
    and "0 < min n (MAX_USERS e) \<Longrightarrow> int (length rs) \<le> min n (MAX_USERS e)"
proof -
  from assms have nf: "users \<noteq> []"
    by (auto simp: extract_replays_def)
  obtain evs' r' where lp: "extract_loop h e (min n (MAX_USERS e)) users [] 0 = (evs', r')"
    by force
  with assms nf have "r' = Inr rs"
    by (auto simp: extract_replays_def Let_def)
  with lp have run: "extract_loop h e (min n (MAX_USERS e)) users [] 0 = (evs', Inr rs)" by simp
  from loop_shape[OF run] obtain j
    where "list_all2 (entry_of h e) (filter (has_replay h e) (take j users)) rs" by auto
  then have "length rs = length (filter (has_replay h e) (take j users))"
    by (simp add: list_all2_lengthD)
  then show "length rs \<le> length (filter (has_replay h e) users)"
    by (simp add: filter_take_length)
  assume "0 < min n (MAX_USERS e)"
  from loop_length[OF run this] show "int (length rs) \<le> min n (MAX_USERS e)" by simp
qed

text \<open>
  Claim C3 bounds the length of the returned list by the clamped count. The code differs
  for a count below 1. With the requested count 0 the clamped count is 0, the test
  \<^verbatim>\<open>teams_found == num_users_to_pull\<close> never holds, and the call returns an entry for
  every ranked user with an identifier: here two entries.
\<close>

theorem zero_count_result:
  "min 0 (MAX_USERS (demo_env (ok_response (payload ''gen8ou-3'')))) = 0 \<and>
   snd (extract_replays demo_handler (demo_env (ok_response (payload ''gen8ou-3''))) 0) =
     Inr [Some \<lparr>info_id = JStr ''gen8ou-3'', info_username = ''alice'', info_rating = 1500,
                info_format = JStr ''gen8ou'', info_log = JStr ''|start'',
                info_uploadtime = JNum 1000\<rparr>,
          Some \<lparr>info_id = JStr ''gen8ou-5'', info_username = ''carol'', info_rating = 1300,
                info_format = JStr ''gen8ou'', info_log = JStr ''|start'',
                info_uploadtime = JNum 1000\<rparr>]"
  by (simp add: demo_defs code_defs)

end
